theory Spec2Isabelle
  imports Complex_Main
begin

section \<open>Numbers, strings and the ledger container\<close>

text \<open>
  The simulation of \<^verbatim>\<open>src/main.py\<close> computes with Python numbers: the configuration
  holds ints or floats, and every running total is a float after the first month.
  The first model idealises them as real numbers: the binary64 rounding error of each
  float operation, overflow and NaN are outside it. What it keeps is the order of the
  operations, the branches, the two-decimal rounding of \<^verbatim>\<open>round(x, 2)\<close> and the one
  exception the arithmetic itself can raise. The second model, further down, is the
  same loop over any arithmetic; what is proved there does not depend on how a number
  is represented or rounded.
\<close>

text \<open>
  Python's \<^verbatim>\<open>round(x, ndigits)\<close> rounds to the nearest multiple of
  \<open>10 ^ -ndigits\<close> and resolves a tie to the even neighbour.
\<close>

definition round_half_even :: "real \<Rightarrow> int" where
  "round_half_even x =
     (let f = \<lfloor>x\<rfloor>; d = x - of_int f
      in if d < 1 / 2 then f
         else if 1 / 2 < d then f + 1
         else if even f then f else f + 1)"

definition py_round :: "real \<Rightarrow> nat \<Rightarrow> real" where
  "py_round x ndigits = of_int (round_half_even (x * 10 ^ ndigits)) / 10 ^ ndigits"

text \<open>Python's \<^verbatim>\<open>str\<close> of an int, as the f-string of the row label prints the year.\<close>

definition digit_char :: "nat \<Rightarrow> char" where
  "digit_char d = ''0123456789'' ! d"

fun str_nat :: "nat \<Rightarrow> string" where
  "str_nat n = (if n < 10 then [digit_char n] else str_nat (n div 10) @ [digit_char (n mod 10)])"

declare str_nat.simps [simp del]

definition py_str :: "int \<Rightarrow> string" where
  "py_str i = (if i < 0 then CHR ''-'' # str_nat (nat (- i)) else str_nat (nat i))"

text \<open>
  One row of the DataFrame \<^verbatim>\<open>self.data\<close>, a field per column, in the column order of
  \<^verbatim>\<open>__init__\<close>: "Somme totale", "Somme totale investie", "B\'en\'efices",
  "Frais de gestion", "Montants totaux de frais de gestion", "\'Evolution du march\'e",
  "Dividendes vers\'es", "Contribution ajout\'ee".
\<close>

record 'n monthly_record =
  Somme_totale :: 'n
  Somme_totale_investie :: 'n
  Benefices :: 'n
  Frais_de_gestion :: 'n
  Montants_totaux_de_frais_de_gestion :: 'n
  Evolution_du_marche :: 'n
  Dividendes_verses :: 'n
  Contribution_ajoutee :: 'n

text \<open>
  The DataFrame is a sequence of rows, each under its index label.
  \<^verbatim>\<open>df.loc[label] = row\<close> overwrites the row of a label the index already has, in
  place, and appends the row under a new label otherwise.
\<close>

type_synonym 'n ledger = "(string \<times> 'n monthly_record) list"

fun df_loc_set :: "'n ledger \<Rightarrow> string \<Rightarrow> 'n monthly_record \<Rightarrow> 'n ledger" where
  "df_loc_set [] label row = [(label, row)]"
| "df_loc_set ((l, r) # rest) label row =
     (if l = label then (label, row) # rest else (l, r) # df_loc_set rest label row)"

section \<open>The account and its simulation\<close>

record 'n InvestmentAccount =
  name :: string
  start_amount :: 'n
  management_fee :: 'n
  market_growth :: 'n
  dividend_yield :: 'n
  monthly_contribution :: 'n
  data :: "'n ledger"
  months :: "string list"
  current_year :: int

definition InvestmentAccount_init ::
  "string \<Rightarrow> 'n \<Rightarrow> 'n \<Rightarrow> 'n \<Rightarrow> 'n \<Rightarrow> 'n \<Rightarrow> 'n InvestmentAccount" where
  "InvestmentAccount_init nm sa mf mg dy mc =
     \<lparr> name = nm, start_amount = sa, management_fee = mf, market_growth = mg,
       dividend_yield = dy, monthly_contribution = mc,
       data = [],
       months = [''Janvier'', ''F'' @ [CHR 0xE9] @ ''vrier'', ''Mars'', ''Avril'',
                 ''Mai'', ''Juin'', ''Juillet'', ''Ao'' @ [CHR 0xFB] @ ''t'',
                 ''Septembre'', ''Octobre'', ''Novembre'', ''D'' @ [CHR 0xE9] @ ''cembre''],
       current_year = 2025 \<rparr>"

definition get_data :: "'n InvestmentAccount \<Rightarrow> 'n ledger" where
  "get_data self = data self"

text \<open>The running totals that \<^verbatim>\<open>simulate\<close> carries from one month to the next.\<close>

record 'n totals =
  total_amount :: 'n
  total_invested :: 'n
  total_fees :: 'n
  total_fees_cumulative :: 'n
  total_dividends :: 'n

text \<open>
  \<^verbatim>\<open>(1 + self.market_growth) ** (1 / 12)\<close> is a complex number when the base is
  negative; every later value of \<^verbatim>\<open>total_amount\<close> is then complex too, and
  \<^verbatim>\<open>round(total_amount, 2)\<close> raises TypeError while the row is being built, before
  anything is stored.
\<close>

datatype error = TypeError

type_synonym ('n, 'a) raised_or = "(error \<times> 'n InvestmentAccount) + 'a"

text \<open>The label of a row: \<^verbatim>\<open>f"{self.months[month-1]} {self.current_year + year - 1}"\<close>.\<close>

definition row_label :: "'n InvestmentAccount \<Rightarrow> nat \<Rightarrow> nat \<Rightarrow> string" where
  "row_label self year month =
     months self ! (month - 1) @ '' '' @ py_str (current_year self + int year - 1)"

text \<open>The body of the inner loop, lines 152 to 182, for one \<open>year\<close> and \<open>month\<close>.\<close>

definition simulate_month ::
  "real InvestmentAccount \<Rightarrow> nat \<Rightarrow> nat \<Rightarrow> real totals \<Rightarrow>
   (real, real totals \<times> real InvestmentAccount) raised_or" where
  "simulate_month self year month t =
     (let total_amount1 = total_amount t + monthly_contribution self;
          total_invested1 = total_invested t + monthly_contribution self;
          growth_factor = (1 + market_growth self) powr (1 / 12);
          market_change = total_amount1 * (growth_factor - 1);
          total_amount2 = total_amount1 + market_change;
          fees = (if month mod 3 = 0
                  then (total_amount2 * (management_fee self / 100)) / 4 else 0);
          total_amount3 = total_amount2 - fees;
          total_fees1 = total_fees t + fees;
          total_fees_cumulative1 = total_fees_cumulative t + fees;
          dividends = (if month = 12 then total_amount3 * dividend_yield self else 0);
          total_amount4 = total_amount3 + dividends;
          total_dividends1 = total_dividends t + dividends
      in if 1 + market_growth self < 0 then Inl (TypeError, self)
         else Inr
          (\<lparr> total_amount = total_amount4, total_invested = total_invested1,
             total_fees = total_fees1, total_fees_cumulative = total_fees_cumulative1,
             total_dividends = total_dividends1 \<rparr>,
           self\<lparr> data := df_loc_set (data self) (row_label self year month)
             \<lparr> Somme_totale = py_round total_amount4 2,
               Somme_totale_investie = py_round total_invested1 2,
               Benefices = py_round (total_amount4 - total_invested1) 2,
               Frais_de_gestion = py_round total_fees1 2,
               Montants_totaux_de_frais_de_gestion = py_round total_fees_cumulative1 2,
               Evolution_du_marche = py_round market_change 2,
               Dividendes_verses = py_round dividends 2,
               Contribution_ajoutee = py_round (monthly_contribution self) 2 \<rparr> \<rparr>))"

text \<open>\<^verbatim>\<open>for month in range(1, 13)\<close>: the months of one year, stopping at a raise.\<close>

primrec month_loop ::
  "real InvestmentAccount \<Rightarrow> nat \<Rightarrow> real totals \<Rightarrow> nat list \<Rightarrow>
   (real, real totals \<times> real InvestmentAccount) raised_or" where
  "month_loop self year t [] = Inr (t, self)"
| "month_loop self year t (month # ms) =
     (case simulate_month self year month t of
        Inl e \<Rightarrow> Inl e
      | Inr (t', self') \<Rightarrow> month_loop self' year t' ms)"

text \<open>\<^verbatim>\<open>for year in range(1, years + 1)\<close>.\<close>

primrec year_loop ::
  "real InvestmentAccount \<Rightarrow> real totals \<Rightarrow> nat list \<Rightarrow>
   (real, real totals \<times> real InvestmentAccount) raised_or" where
  "year_loop self t [] = Inr (t, self)"
| "year_loop self t (year # ys) =
     (case month_loop self year t [1..<13] of
        Inl e \<Rightarrow> Inl e
      | Inr (t', self') \<Rightarrow> year_loop self' t' ys)"

text \<open>
  \<^verbatim>\<open>simulate(self, years)\<close>: the result is the exception raised, if any, and the
  object as the call leaves it. \<^verbatim>\<open>range(1, years + 1)\<close> is empty when \<open>years < 1\<close>.
\<close>

definition initial_totals :: "real InvestmentAccount \<Rightarrow> real totals" where
  "initial_totals self =
     \<lparr> total_amount = start_amount self, total_invested = start_amount self,
       total_fees = 0, total_fees_cumulative = 0, total_dividends = 0 \<rparr>"

definition simulate ::
  "real InvestmentAccount \<Rightarrow> int \<Rightarrow> (real, real InvestmentAccount) raised_or" where
  "simulate self years =
     (case year_loop self (initial_totals self) [1..<nat (years + 1)] of
        Inl e \<Rightarrow> Inl e
      | Inr (t, self') \<Rightarrow> Inr self')"

text \<open>The object after the call, whether it returned or raised.\<close>

fun account_after :: "('n, 'n InvestmentAccount) raised_or \<Rightarrow> 'n InvestmentAccount" where
  "account_after (Inl (e, self)) = self"
| "account_after (Inr self) = self"

fun raised :: "('n, 'a) raised_or \<Rightarrow> error option" where
  "raised (Inl (e, self)) = Some e"
| "raised (Inr x) = None"

section \<open>The monthly step in the words of the specification\<close>

text \<open>
  A second description of one month, following steps 1 to 4 of the algorithm in section
  4.2 of the specification rather than the source: the quantities of the month as the
  specification names them, each a function of the balance \<open>b\<close> at the start of the
  month and the month \<open>m\<close> of the year (1 to 12):
  the contribution is added first, the balance is multiplied by the twelfth root of
  the annual growth, the quarterly fee is taken from the balance after growth, and
  the December dividend is paid on the balance after the fee. Nothing here is rounded.
  Lemma \<open>simulate_month_returns\<close> below compares them with the loop body.
\<close>

definition growth_factor_of :: "real InvestmentAccount \<Rightarrow> real" where
  "growth_factor_of cfg = (1 + market_growth cfg) powr (1 / 12)"

definition post_contribution :: "real InvestmentAccount \<Rightarrow> real \<Rightarrow> real" where
  "post_contribution cfg b = b + monthly_contribution cfg"

definition market_change_of :: "real InvestmentAccount \<Rightarrow> real \<Rightarrow> real" where
  "market_change_of cfg b = post_contribution cfg b * (growth_factor_of cfg - 1)"

definition post_growth :: "real InvestmentAccount \<Rightarrow> real \<Rightarrow> real" where
  "post_growth cfg b = post_contribution cfg b * growth_factor_of cfg"

definition fee_charged :: "real InvestmentAccount \<Rightarrow> nat \<Rightarrow> real \<Rightarrow> real" where
  "fee_charged cfg m b =
     (if 3 dvd m then post_growth cfg b * (management_fee cfg / 100) / 4 else 0)"

definition post_fee :: "real InvestmentAccount \<Rightarrow> nat \<Rightarrow> real \<Rightarrow> real" where
  "post_fee cfg m b = post_growth cfg b - fee_charged cfg m b"

definition dividend_paid :: "real InvestmentAccount \<Rightarrow> nat \<Rightarrow> real \<Rightarrow> real" where
  "dividend_paid cfg m b = (if m = 12 then post_fee cfg m b * dividend_yield cfg else 0)"

definition post_dividend :: "real InvestmentAccount \<Rightarrow> nat \<Rightarrow> real \<Rightarrow> real" where
  "post_dividend cfg m b = post_fee cfg m b + dividend_paid cfg m b"

text \<open>
  One month on the running totals, and the totals after \<open>k\<close> months of a call, with no
  rounding anywhere: month \<open>k\<close> (counted from 0) is month \<open>k mod 12 + 1\<close> of year
  \<open>k div 12 + 1\<close>.
\<close>

definition exact_step :: "real InvestmentAccount \<Rightarrow> nat \<Rightarrow> real totals \<Rightarrow> real totals" where
  "exact_step cfg m t =
     \<lparr> total_amount = post_dividend cfg m (total_amount t),
       total_invested = total_invested t + monthly_contribution cfg,
       total_fees = total_fees t + fee_charged cfg m (total_amount t),
       total_fees_cumulative = total_fees_cumulative t + fee_charged cfg m (total_amount t),
       total_dividends = total_dividends t + dividend_paid cfg m (total_amount t) \<rparr>"

primrec exact_totals :: "real InvestmentAccount \<Rightarrow> nat \<Rightarrow> real totals" where
  "exact_totals cfg 0 = initial_totals cfg"
| "exact_totals cfg (Suc k) = exact_step cfg (k mod 12 + 1) (exact_totals cfg k)"

text \<open>
  The record of a month: the two-decimal rounding of the exact totals after that month
  and of the exact market change and dividend of that month.
\<close>

definition emitted_record ::
  "real InvestmentAccount \<Rightarrow> nat \<Rightarrow> real totals \<Rightarrow> real monthly_record" where
  "emitted_record cfg m t =
     \<lparr> Somme_totale = py_round (total_amount (exact_step cfg m t)) 2,
       Somme_totale_investie = py_round (total_invested (exact_step cfg m t)) 2,
       Benefices = py_round (total_amount (exact_step cfg m t) - total_invested (exact_step cfg m t)) 2,
       Frais_de_gestion = py_round (total_fees (exact_step cfg m t)) 2,
       Montants_totaux_de_frais_de_gestion = py_round (total_fees_cumulative (exact_step cfg m t)) 2,
       Evolution_du_marche = py_round (market_change_of cfg (total_amount t)) 2,
       Dividendes_verses = py_round (dividend_paid cfg m (total_amount t)) 2,
       Contribution_ajoutee = py_round (monthly_contribution cfg) 2 \<rparr>"

text \<open>The label and record of month \<open>k\<close> of a call, and its storing in the ledger.\<close>

definition ledger_entry :: "real InvestmentAccount \<Rightarrow> nat \<Rightarrow> string \<times> real monthly_record" where
  "ledger_entry cfg k =
     (row_label cfg (k div 12 + 1) (k mod 12 + 1),
      emitted_record cfg (k mod 12 + 1) (exact_totals cfg k))"

definition store_entry :: "real InvestmentAccount \<Rightarrow> real ledger \<Rightarrow> nat \<Rightarrow> real ledger" where
  "store_entry cfg d k = df_loc_set d (fst (ledger_entry cfg k)) (snd (ledger_entry cfg k))"

text \<open>
  What \<^verbatim>\<open>__init__\<close> fixes and nothing changes afterwards: the month names and the
  first calendar year.
\<close>

definition constructed :: "'n InvestmentAccount \<Rightarrow> bool" where
  "constructed self \<longleftrightarrow>
     months self = months (InvestmentAccount_init [] (0 :: real) 0 0 0 0) \<and>
     current_year self = 2025"

section \<open>The simulation over any arithmetic\<close>

text \<open>
  The same loop with the arithmetic left open. A value of \<open>'n arith\<close> holds the
  operations that \<^verbatim>\<open>simulate\<close> applies to numbers: \<^verbatim>\<open>+\<close>, \<^verbatim>\<open>-\<close>, \<^verbatim>\<open>*\<close>, \<^verbatim>\<open>/\<close>,
  \<^verbatim>\<open>**\<close>, \<^verbatim>\<open>round(x, ndigits)\<close>, the int literals of the source, and the test that the
  base of \<^verbatim>\<open>**\<close> is negative, which is when its result is complex. The functions below
  are the loop body, the loops and \<^verbatim>\<open>simulate\<close> with these operations in place of those
  of the reals, operation for operation and in the order of the source. A theorem that
  holds for every \<open>ar\<close> therefore holds for Python's own ints and binary64 floats, the
  rounding error of every operation included, wherever its operators return a number.
  \<open>python_reals\<close> is the arithmetic of the previous section, where
  \<open>simulate_in python_reals\<close> is \<open>simulate\<close>.
\<close>

record 'n arith =
  num_add :: "'n \<Rightarrow> 'n \<Rightarrow> 'n"
  num_sub :: "'n \<Rightarrow> 'n \<Rightarrow> 'n"
  num_mul :: "'n \<Rightarrow> 'n \<Rightarrow> 'n"
  num_div :: "'n \<Rightarrow> 'n \<Rightarrow> 'n"
  num_pow :: "'n \<Rightarrow> 'n \<Rightarrow> 'n"
  num_round :: "'n \<Rightarrow> nat \<Rightarrow> 'n"
  num_int :: "int \<Rightarrow> 'n"
  num_negative :: "'n \<Rightarrow> bool"

definition python_reals :: "real arith" where
  "python_reals =
     \<lparr> num_add = (+), num_sub = (-), num_mul = (*), num_div = (/), num_pow = (powr),
       num_round = py_round, num_int = of_int, num_negative = (\<lambda>x. x < 0) \<rparr>"

text \<open>The body of the inner loop, lines 152 to 182.\<close>

definition simulate_month_in ::
  "'n arith \<Rightarrow> 'n InvestmentAccount \<Rightarrow> nat \<Rightarrow> nat \<Rightarrow> 'n totals \<Rightarrow>
   ('n, 'n totals \<times> 'n InvestmentAccount) raised_or" where
  "simulate_month_in ar self year month t =
     (let total_amount1 = num_add ar (total_amount t) (monthly_contribution self);
          total_invested1 = num_add ar (total_invested t) (monthly_contribution self);
          growth_factor = num_pow ar (num_add ar (num_int ar 1) (market_growth self))
                            (num_div ar (num_int ar 1) (num_int ar 12));
          market_change = num_mul ar total_amount1 (num_sub ar growth_factor (num_int ar 1));
          total_amount2 = num_add ar total_amount1 market_change;
          fees = (if month mod 3 = 0
                  then num_div ar
                         (num_mul ar total_amount2
                            (num_div ar (management_fee self) (num_int ar 100)))
                         (num_int ar 4)
                  else num_int ar 0);
          total_amount3 = num_sub ar total_amount2 fees;
          total_fees1 = num_add ar (total_fees t) fees;
          total_fees_cumulative1 = num_add ar (total_fees_cumulative t) fees;
          dividends = (if month = 12 then num_mul ar total_amount3 (dividend_yield self)
                       else num_int ar 0);
          total_amount4 = num_add ar total_amount3 dividends;
          total_dividends1 = num_add ar (total_dividends t) dividends
      in if num_negative ar (num_add ar (num_int ar 1) (market_growth self))
         then Inl (TypeError, self)
         else Inr
          (\<lparr> total_amount = total_amount4, total_invested = total_invested1,
             total_fees = total_fees1, total_fees_cumulative = total_fees_cumulative1,
             total_dividends = total_dividends1 \<rparr>,
           self\<lparr> data := df_loc_set (data self) (row_label self year month)
             \<lparr> Somme_totale = num_round ar total_amount4 2,
               Somme_totale_investie = num_round ar total_invested1 2,
               Benefices = num_round ar (num_sub ar total_amount4 total_invested1) 2,
               Frais_de_gestion = num_round ar total_fees1 2,
               Montants_totaux_de_frais_de_gestion = num_round ar total_fees_cumulative1 2,
               Evolution_du_marche = num_round ar market_change 2,
               Dividendes_verses = num_round ar dividends 2,
               Contribution_ajoutee = num_round ar (monthly_contribution self) 2 \<rparr> \<rparr>))"

primrec month_loop_in ::
  "'n arith \<Rightarrow> 'n InvestmentAccount \<Rightarrow> nat \<Rightarrow> 'n totals \<Rightarrow> nat list \<Rightarrow>
   ('n, 'n totals \<times> 'n InvestmentAccount) raised_or" where
  "month_loop_in ar self year t [] = Inr (t, self)"
| "month_loop_in ar self year t (month # ms) =
     (case simulate_month_in ar self year month t of
        Inl e \<Rightarrow> Inl e
      | Inr (t', self') \<Rightarrow> month_loop_in ar self' year t' ms)"

primrec year_loop_in ::
  "'n arith \<Rightarrow> 'n InvestmentAccount \<Rightarrow> 'n totals \<Rightarrow> nat list \<Rightarrow>
   ('n, 'n totals \<times> 'n InvestmentAccount) raised_or" where
  "year_loop_in ar self t [] = Inr (t, self)"
| "year_loop_in ar self t (year # ys) =
     (case month_loop_in ar self year t [1..<13] of
        Inl e \<Rightarrow> Inl e
      | Inr (t', self') \<Rightarrow> year_loop_in ar self' t' ys)"

definition initial_totals_in :: "'n arith \<Rightarrow> 'n InvestmentAccount \<Rightarrow> 'n totals" where
  "initial_totals_in ar self =
     \<lparr> total_amount = start_amount self, total_invested = start_amount self,
       total_fees = num_int ar 0, total_fees_cumulative = num_int ar 0,
       total_dividends = num_int ar 0 \<rparr>"

definition simulate_in ::
  "'n arith \<Rightarrow> 'n InvestmentAccount \<Rightarrow> int \<Rightarrow> ('n, 'n InvestmentAccount) raised_or" where
  "simulate_in ar self years =
     (case year_loop_in ar self (initial_totals_in ar self) [1..<nat (years + 1)] of
        Inl e \<Rightarrow> Inl e
      | Inr (t, self') \<Rightarrow> Inr self')"

text \<open>
  The running values of one month in the order of steps 1 to 4 of section 4.2 of the
  specification, and the totals after \<open>k\<close> months of a call. Each applies the operations
  of \<open>ar\<close> as the source applies them; none of them calls \<open>num_round\<close>.
\<close>

definition after_contribution :: "'n arith \<Rightarrow> 'n InvestmentAccount \<Rightarrow> 'n \<Rightarrow> 'n" where
  "after_contribution ar cfg b = num_add ar b (monthly_contribution cfg)"

definition growth_factor_in :: "'n arith \<Rightarrow> 'n InvestmentAccount \<Rightarrow> 'n" where
  "growth_factor_in ar cfg =
     num_pow ar (num_add ar (num_int ar 1) (market_growth cfg))
       (num_div ar (num_int ar 1) (num_int ar 12))"

definition market_change_in :: "'n arith \<Rightarrow> 'n InvestmentAccount \<Rightarrow> 'n \<Rightarrow> 'n" where
  "market_change_in ar cfg b =
     num_mul ar (after_contribution ar cfg b) (num_sub ar (growth_factor_in ar cfg) (num_int ar 1))"

definition after_growth :: "'n arith \<Rightarrow> 'n InvestmentAccount \<Rightarrow> 'n \<Rightarrow> 'n" where
  "after_growth ar cfg b = num_add ar (after_contribution ar cfg b) (market_change_in ar cfg b)"

definition fee_in :: "'n arith \<Rightarrow> 'n InvestmentAccount \<Rightarrow> nat \<Rightarrow> 'n \<Rightarrow> 'n" where
  "fee_in ar cfg m b =
     (if 3 dvd m
      then num_div ar
             (num_mul ar (after_growth ar cfg b) (num_div ar (management_fee cfg) (num_int ar 100)))
             (num_int ar 4)
      else num_int ar 0)"

definition after_fee :: "'n arith \<Rightarrow> 'n InvestmentAccount \<Rightarrow> nat \<Rightarrow> 'n \<Rightarrow> 'n" where
  "after_fee ar cfg m b = num_sub ar (after_growth ar cfg b) (fee_in ar cfg m b)"

definition dividend_in :: "'n arith \<Rightarrow> 'n InvestmentAccount \<Rightarrow> nat \<Rightarrow> 'n \<Rightarrow> 'n" where
  "dividend_in ar cfg m b =
     (if m = 12 then num_mul ar (after_fee ar cfg m b) (dividend_yield cfg) else num_int ar 0)"

definition after_dividend :: "'n arith \<Rightarrow> 'n InvestmentAccount \<Rightarrow> nat \<Rightarrow> 'n \<Rightarrow> 'n" where
  "after_dividend ar cfg m b = num_add ar (after_fee ar cfg m b) (dividend_in ar cfg m b)"

definition running_step ::
  "'n arith \<Rightarrow> 'n InvestmentAccount \<Rightarrow> nat \<Rightarrow> 'n totals \<Rightarrow> 'n totals" where
  "running_step ar cfg m t =
     \<lparr> total_amount = after_dividend ar cfg m (total_amount t),
       total_invested = num_add ar (total_invested t) (monthly_contribution cfg),
       total_fees = num_add ar (total_fees t) (fee_in ar cfg m (total_amount t)),
       total_fees_cumulative =
         num_add ar (total_fees_cumulative t) (fee_in ar cfg m (total_amount t)),
       total_dividends = num_add ar (total_dividends t) (dividend_in ar cfg m (total_amount t)) \<rparr>"

primrec running_totals :: "'n arith \<Rightarrow> 'n InvestmentAccount \<Rightarrow> nat \<Rightarrow> 'n totals" where
  "running_totals ar cfg 0 = initial_totals_in ar cfg"
| "running_totals ar cfg (Suc k) = running_step ar cfg (k mod 12 + 1) (running_totals ar cfg k)"

text \<open>
  The record of a month, the rounding of the running values, with its label, and its
  storing in the ledger.
\<close>

definition rounded_record ::
  "'n arith \<Rightarrow> 'n InvestmentAccount \<Rightarrow> nat \<Rightarrow> 'n totals \<Rightarrow> 'n monthly_record" where
  "rounded_record ar cfg m t =
     \<lparr> Somme_totale = num_round ar (total_amount (running_step ar cfg m t)) 2,
       Somme_totale_investie = num_round ar (total_invested (running_step ar cfg m t)) 2,
       Benefices = num_round ar (num_sub ar (total_amount (running_step ar cfg m t))
                                   (total_invested (running_step ar cfg m t))) 2,
       Frais_de_gestion = num_round ar (total_fees (running_step ar cfg m t)) 2,
       Montants_totaux_de_frais_de_gestion =
         num_round ar (total_fees_cumulative (running_step ar cfg m t)) 2,
       Evolution_du_marche = num_round ar (market_change_in ar cfg (total_amount t)) 2,
       Dividendes_verses = num_round ar (dividend_in ar cfg m (total_amount t)) 2,
       Contribution_ajoutee = num_round ar (monthly_contribution cfg) 2 \<rparr>"

definition ledger_entry_in ::
  "'n arith \<Rightarrow> 'n InvestmentAccount \<Rightarrow> nat \<Rightarrow> string \<times> 'n monthly_record" where
  "ledger_entry_in ar cfg k =
     (row_label cfg (k div 12 + 1) (k mod 12 + 1),
      rounded_record ar cfg (k mod 12 + 1) (running_totals ar cfg k))"

definition store_entry_in ::
  "'n arith \<Rightarrow> 'n InvestmentAccount \<Rightarrow> 'n ledger \<Rightarrow> nat \<Rightarrow> 'n ledger" where
  "store_entry_in ar cfg d k =
     df_loc_set d (fst (ledger_entry_in ar cfg k)) (snd (ledger_entry_in ar cfg k))"

section \<open>The loop body and the loops\<close>

lemmas stage_defs = growth_factor_of_def post_contribution_def market_change_of_def
  post_growth_def fee_charged_def post_fee_def dividend_paid_def post_dividend_def

lemma simulate_month_raises:
  "1 + market_growth self < 0 \<Longrightarrow> simulate_month self year month t = Inl (TypeError, self)"
  by (simp add: simulate_month_def Let_def)

lemma simulate_month_returns:
  assumes "0 \<le> 1 + market_growth self"
  shows "simulate_month self year month t =
           Inr (exact_step self month t,
                self\<lparr>data := df_loc_set (data self) (row_label self year month)
                                 (emitted_record self month t)\<rparr>)"
proof -
  have g: "\<not> 1 + market_growth self < 0" using assms by simp
  have m3: "(month mod 3 = 0) = (3 dvd month)" by (simp add: dvd_eq_mod_eq_0)
  show ?thesis
    unfolding simulate_month_def Let_def emitted_record_def exact_step_def stage_defs m3
    using g by (simp add: algebra_simps)
qed

lemma exact_step_data [simp]: "exact_step (self\<lparr>data := d\<rparr>) = exact_step self"
  by (rule ext)+ (simp add: exact_step_def stage_defs)

lemma exact_totals_data [simp]: "exact_totals (self\<lparr>data := d\<rparr>) k = exact_totals self k"
  by (induction k) (simp_all add: initial_totals_def)

lemma emitted_record_data [simp]: "emitted_record (self\<lparr>data := d\<rparr>) = emitted_record self"
  by (rule ext)+ (simp add: emitted_record_def stage_defs)

lemma row_label_data [simp]: "row_label (self\<lparr>data := d\<rparr>) = row_label self"
  by (rule ext)+ (simp add: row_label_def)

lemma ledger_entry_data [simp]: "ledger_entry (self\<lparr>data := d\<rparr>) = ledger_entry self"
  by (rule ext) (simp add: ledger_entry_def)

lemma store_entry_data [simp]: "store_entry (self\<lparr>data := d\<rparr>) = store_entry self"
  by (rule ext)+ (simp add: store_entry_def)

lemma month_loop_returns:
  assumes g: "0 \<le> 1 + market_growth self" and i: "i \<le> 12"
  shows "month_loop (self\<lparr>data := d\<rparr>) (Suc y) (exact_totals self (12 * y + i)) [Suc i..<13] =
           Inr (exact_totals self (12 * y + 12),
                self\<lparr>data := foldl (store_entry self) d [12 * y + i..<12 * y + 12]\<rparr>)"
  using i
proof (induction i arbitrary: d rule: inc_induct)
  case base
  show ?case by simp
next
  case (step n)
  let ?k = "12 * y + n"
  have g': "0 \<le> 1 + market_growth (self\<lparr>data := d\<rparr>)" using g by simp
  have l: "[Suc n..<13] = Suc n # [Suc (Suc n)..<13]"
    using step.hyps by (simp add: upt_conv_Cons)
  have u: "[?k..<12 * y + 12] = ?k # [12 * y + Suc n..<12 * y + 12]"
    using step.hyps by (simp add: upt_conv_Cons)
  have md: "?k mod 12 = n" "?k div 12 = y"
    using step.hyps by simp_all
  have t: "exact_step self (Suc n) (exact_totals self ?k) = exact_totals self (12 * y + Suc n)"
    using md by simp
  have s: "df_loc_set d (row_label self (Suc y) (Suc n))
             (emitted_record self (Suc n) (exact_totals self ?k)) = store_entry self d ?k"
    unfolding store_entry_def ledger_entry_def md by simp
  have "month_loop (self\<lparr>data := d\<rparr>) (Suc y) (exact_totals self ?k) [Suc n..<13] =
        month_loop (self\<lparr>data := store_entry self d ?k\<rparr>) (Suc y)
          (exact_totals self (12 * y + Suc n)) [Suc (Suc n)..<13]"
    unfolding l by (simp add: simulate_month_returns [OF g'] t s)
  also have "\<dots> = Inr (exact_totals self (12 * y + 12),
       self\<lparr>data := foldl (store_entry self) (store_entry self d ?k)
                       [12 * y + Suc n..<12 * y + 12]\<rparr>)"
    by (rule step.IH)
  finally show ?case unfolding u by simp
qed

lemma year_loop_returns:
  assumes g: "0 \<le> 1 + market_growth self" and a: "a \<le> n"
  shows "year_loop (self\<lparr>data := d\<rparr>) (exact_totals self (12 * a)) [Suc a..<Suc n] =
           Inr (exact_totals self (12 * n),
                self\<lparr>data := foldl (store_entry self) d [12 * a..<12 * n]\<rparr>)"
  using a
proof (induction a arbitrary: d rule: inc_induct)
  case base
  show ?case by simp
next
  case (step k)
  let ?d = "foldl (store_entry self) d [12 * k..<12 * k + 12]"
  have l: "[Suc k..<Suc n] = Suc k # [Suc (Suc k)..<Suc n]"
    using step.hyps by (simp add: upt_conv_Cons)
  have e: "12 * k + 12 = 12 * Suc k" by simp
  have "12 * k + 12 \<le> 12 * n" using step.hyps by simp
  then have u: "[12 * k..<12 * n] = [12 * k..<12 * k + 12] @ [12 * Suc k..<12 * n]"
    unfolding e [symmetric]
    by (metis le_add1 le_Suc_ex upt_add_eq_append)
  have m: "month_loop (self\<lparr>data := d\<rparr>) (Suc k) (exact_totals self (12 * k)) [1..<13] =
           Inr (exact_totals self (12 * Suc k), self\<lparr>data := ?d\<rparr>)"
    using month_loop_returns [OF g, of 0 d k] unfolding e by (simp del: mult_Suc_right)
  have "year_loop (self\<lparr>data := d\<rparr>) (exact_totals self (12 * k)) [Suc k..<Suc n] =
        year_loop (self\<lparr>data := ?d\<rparr>) (exact_totals self (12 * Suc k)) [Suc (Suc k)..<Suc n]"
    unfolding l by (simp only: year_loop.simps m sum.case prod.case)
  also have "\<dots> = Inr (exact_totals self (12 * n),
       self\<lparr>data := foldl (store_entry self) ?d [12 * Suc k..<12 * n]\<rparr>)"
    by (rule step.IH)
  finally show ?case unfolding u by simp
qed

lemma year_range: "[1..<nat (years + 1)] = [Suc 0..<Suc (nat years)]"
proof (cases "0 \<le> years")
  case True
  then have "nat (years + 1) = Suc (nat years)" by (simp add: nat_add_distrib)
  then show ?thesis by simp
next
  case False
  then show ?thesis by simp
qed

lemma simulate_returns:
  assumes "0 \<le> 1 + market_growth self"
  shows "simulate self years =
           Inr (self\<lparr>data := foldl (store_entry self) (data self) [0..<12 * nat years]\<rparr>)"
proof -
  have "year_loop (self\<lparr>data := data self\<rparr>) (exact_totals self (12 * 0)) [Suc 0..<Suc (nat years)] =
          Inr (exact_totals self (12 * nat years),
               self\<lparr>data := foldl (store_entry self) (data self) [12 * 0..<12 * nat years]\<rparr>)"
    by (rule year_loop_returns [OF assms]) simp
  then show ?thesis
    unfolding simulate_def year_range by simp
qed

lemma simulate_raises:
  assumes "1 + market_growth self < 0" and "1 \<le> years"
  shows "simulate self years = Inl (TypeError, self)"
proof -
  have "Suc 0 < Suc (nat years)" using assms(2) by simp
  then have "[Suc 0..<Suc (nat years)] = Suc 0 # [Suc (Suc 0)..<Suc (nat years)]"
    by (rule upt_conv_Cons)
  moreover have "[1..<13] = Suc 0 # [Suc (Suc 0)..<13]"
    by (simp add: upt_conv_Cons)
  ultimately show ?thesis
    unfolding simulate_def year_range
    by (simp add: simulate_month_raises [OF assms(1)])
qed

lemma simulate_no_iteration: "years < 1 \<Longrightarrow> simulate self years = Inr self"
  by (simp add: simulate_def)

lemma df_loc_set_new:
  "label \<notin> fst ` set d \<Longrightarrow> df_loc_set d label row = d @ [(label, row)]"
  by (induction d) auto

lemma df_loc_set_same:
  "distinct (map fst d) \<Longrightarrow> (label, row) \<in> set d \<Longrightarrow> df_loc_set d label row = d"
  by (induction d) (auto simp: rev_image_eqI)

lemma store_entries:
  assumes inj: "inj (\<lambda>k. fst (ledger_entry cfg k))"
  shows "foldl (store_entry cfg) (map (ledger_entry cfg) [0..<m]) [0..<n] =
           map (ledger_entry cfg) [0..<max m n]"
proof (induction n)
  case 0
  show ?case by simp
next
  case (Suc n)
  let ?d = "map (ledger_entry cfg) [0..<max m n]"
  have dist: "distinct (map fst ?d)"
    using inj by (simp add: distinct_map comp_def inj_on_def inj_def)
  show ?case
  proof (cases "n < m")
    case True
    then have "ledger_entry cfg n \<in> set ?d" by simp
    then have "store_entry cfg ?d n = ?d"
      unfolding store_entry_def using dist by (simp add: df_loc_set_same)
    moreover have "max m (Suc n) = max m n" using True by simp
    ultimately show ?thesis using Suc.IH by simp
  next
    case False
    then have mx: "max m n = n" "max m (Suc n) = Suc n" by simp_all
    have "fst (ledger_entry cfg n) \<notin> fst ` set ?d"
    proof
      assume "fst (ledger_entry cfg n) \<in> fst ` set ?d"
      then obtain k where "k < n" "fst (ledger_entry cfg n) = fst (ledger_entry cfg k)"
        unfolding mx by auto
      then show False using inj by (auto simp: inj_def)
    qed
    then have "store_entry cfg ?d n = ?d @ [ledger_entry cfg n]"
      unfolding store_entry_def by (simp add: df_loc_set_new)
    then show ?thesis using Suc.IH mx by simp
  qed
qed

section \<open>Row labels and the ledger of a fresh account\<close>

lemma digit_char_inj: "d < 10 \<Longrightarrow> e < 10 \<Longrightarrow> digit_char d = digit_char e \<Longrightarrow> d = e"
proof -
  assume a: "d < 10" "e < 10" "digit_char d = digit_char e"
  have "distinct ''0123456789''" by simp
  moreover have "d < length ''0123456789''" "e < length ''0123456789''" using a by simp_all
  ultimately show "d = e"
    using a(3) unfolding digit_char_def by (simp only: nth_eq_iff_index_eq)
qed

lemma digit_char_not_space: "d < 10 \<Longrightarrow> digit_char d \<noteq> CHR '' ''"
proof -
  assume "d < 10"
  then have "d < length ''0123456789''" by simp
  then have "''0123456789'' ! d \<in> set ''0123456789''" by (rule nth_mem)
  moreover have "CHR '' '' \<notin> set ''0123456789''" by simp
  ultimately show ?thesis unfolding digit_char_def by metis
qed

lemma str_nat_not_Nil: "str_nat n \<noteq> []"
  by (subst str_nat.simps) simp

lemma str_nat_no_space: "CHR '' '' \<notin> set (str_nat n)"
proof (induction n rule: str_nat.induct)
  case (1 n)
  show ?case
  proof (cases "n < 10")
    case True
    then show ?thesis
      by (subst str_nat.simps) (simp add: digit_char_not_space [symmetric])
  next
    case False
    have "n mod 10 < 10" by simp
    then have "digit_char (n mod 10) \<noteq> CHR '' ''" by (rule digit_char_not_space)
    then show ?thesis
      using False "1.IH" by (subst str_nat.simps) auto
  qed
qed

lemma str_nat_inj: "str_nat n = str_nat m \<Longrightarrow> n = m"
proof (induction n arbitrary: m rule: str_nat.induct)
  case (1 n)
  have sn: "str_nat n = (if n < 10 then [digit_char n]
             else str_nat (n div 10) @ [digit_char (n mod 10)])"
    by (rule str_nat.simps)
  have sm: "str_nat m = (if m < 10 then [digit_char m]
             else str_nat (m div 10) @ [digit_char (m mod 10)])"
    by (rule str_nat.simps)
  show ?case
  proof (cases "n < 10")
    case n: True
    show ?thesis
    proof (cases "m < 10")
      case True
      then show ?thesis using n "1.prems" sn sm by (simp add: digit_char_inj)
    next
      case False
      then show ?thesis using n "1.prems" sn sm str_nat_not_Nil [of "m div 10"] by simp
    qed
  next
    case n: False
    show ?thesis
    proof (cases "m < 10")
      case True
      then show ?thesis using n "1.prems" sn sm str_nat_not_Nil [of "n div 10"] by simp
    next
      case False
      then have "str_nat (n div 10) = str_nat (m div 10)"
        and d: "digit_char (n mod 10) = digit_char (m mod 10)"
        using n "1.prems" sn sm by simp_all
      then have "n div 10 = m div 10" using "1.IH" n by simp
      moreover have "n mod 10 = m mod 10"
        using d by (simp add: digit_char_inj)
      ultimately show ?thesis by (metis div_mult_mod_eq)
    qed
  qed
qed

lemma split_at_space:
  "CHR '' '' \<notin> set a \<Longrightarrow> CHR '' '' \<notin> set c \<Longrightarrow>
   a @ CHR '' '' # b = c @ CHR '' '' # d \<Longrightarrow> a = c \<and> b = d"
proof (induction a arbitrary: c)
  case Nil
  then show ?case by (cases c) auto
next
  case (Cons x a)
  then show ?case by (cases c) auto
qed

lemma constructed_init [simp]: "constructed (InvestmentAccount_init nm sa mf mg dy mc)"
  by (simp add: constructed_def InvestmentAccount_init_def)

lemma constructed_data [simp]: "constructed (self\<lparr>data := d\<rparr>) = constructed self"
  by (simp add: constructed_def)

lemma months_facts:
  assumes "constructed self"
  shows "length (months self) = 12" and "distinct (months self)"
    and "\<forall>s \<in> set (months self). CHR '' '' \<notin> set s"
  using assms by (simp_all add: constructed_def InvestmentAccount_init_def)

lemma row_label_inj:
  assumes c: "constructed self" and m: "m < 12" "m' < 12"
    and eq: "row_label self (Suc y) (Suc m) = row_label self (Suc y') (Suc m')"
  shows "y = y' \<and> m = m'"
proof -
  have yr: "py_str (current_year self + int (Suc y) - 1) = str_nat (2025 + y)" for y
    using c by (simp add: constructed_def py_str_def nat_add_distrib)
  have in_set: "months self ! m \<in> set (months self)" "months self ! m' \<in> set (months self)"
    using m months_facts(1) [OF c] by simp_all
  then have ns: "CHR '' '' \<notin> set (months self ! m)" "CHR '' '' \<notin> set (months self ! m')"
    using months_facts(3) [OF c] by blast+
  have "months self ! m @ CHR '' '' # str_nat (2025 + y) =
        months self ! m' @ CHR '' '' # str_nat (2025 + y')"
    using eq unfolding row_label_def yr by simp
  then have "months self ! m = months self ! m'" "str_nat (2025 + y) = str_nat (2025 + y')"
    using split_at_space [OF ns] by blast+
  then have "m = m'" "2025 + y = 2025 + y'"
    using m months_facts(1,2) [OF c] str_nat_inj [of "2025 + y" "2025 + y'"]
    by (simp_all add: nth_eq_iff_index_eq)
  then show ?thesis by simp
qed

lemma ledger_label_inj:
  assumes "constructed self"
  shows "inj (\<lambda>k. fst (ledger_entry self k))"
proof (rule injI)
  fix k k' assume "fst (ledger_entry self k) = fst (ledger_entry self k')"
  then have "row_label self (Suc (k div 12)) (Suc (k mod 12)) =
             row_label self (Suc (k' div 12)) (Suc (k' mod 12))"
    by (simp add: ledger_entry_def)
  then have "k div 12 = k' div 12 \<and> k mod 12 = k' mod 12"
    by (rule row_label_inj [OF assms, rotated 2]) simp_all
  then show "k = k'" by (metis div_mult_mod_eq)
qed

lemma fresh_ledger:
  assumes "constructed self" and "data self = []"
  shows "get_data (account_after (simulate self years)) =
           (if 1 + market_growth self < 0 then []
            else map (ledger_entry self) [0..<12 * nat years])"
proof (cases "1 + market_growth self < 0")
  case True
  show ?thesis
  proof (cases "1 \<le> years")
    case True
    with \<open>1 + market_growth self < 0\<close> show ?thesis
      using assms(2) by (simp add: simulate_raises get_data_def)
  next
    case False
    with \<open>1 + market_growth self < 0\<close> show ?thesis
      using assms(2) by (simp add: simulate_no_iteration get_data_def)
  qed
next
  case False
  then have g: "0 \<le> 1 + market_growth self" by simp
  have "foldl (store_entry self) (map (ledger_entry self) [0..<0]) [0..<12 * nat years] =
        map (ledger_entry self) [0..<max 0 (12 * nat years)]"
    by (rule store_entries [OF ledger_label_inj [OF assms(1)]])
  then show ?thesis
    using False assms(2) by (simp add: simulate_returns [OF g] get_data_def)
qed

lemma nth_fresh_ledger:
  assumes "constructed self" and "data self = []"
    and "k < length (get_data (account_after (simulate self years)))"
  shows "get_data (account_after (simulate self years)) ! k = ledger_entry self k"
    and "0 \<le> 1 + market_growth self" and "k < 12 * nat years"
proof -
  have f: "get_data (account_after (simulate self years)) =
           (if 1 + market_growth self < 0 then []
            else map (ledger_entry self) [0..<12 * nat years])"
    by (rule fresh_ledger [OF assms(1,2)])
  show g: "0 \<le> 1 + market_growth self"
    using assms(3) unfolding f by (simp split: if_splits)
  show k: "k < 12 * nat years"
    using assms(3) unfolding f by (simp split: if_splits)
  show "get_data (account_after (simulate self years)) ! k = ledger_entry self k"
    unfolding f using g k by simp
qed

lemma init_fields [simp]:
  "name (InvestmentAccount_init nm sa mf mg dy mc) = nm"
  "start_amount (InvestmentAccount_init nm sa mf mg dy mc) = sa"
  "management_fee (InvestmentAccount_init nm sa mf mg dy mc) = mf"
  "market_growth (InvestmentAccount_init nm sa mf mg dy mc) = mg"
  "dividend_yield (InvestmentAccount_init nm sa mf mg dy mc) = dy"
  "monthly_contribution (InvestmentAccount_init nm sa mf mg dy mc) = mc"
  "data (InvestmentAccount_init nm sa mf mg dy mc) = []"
  by (simp_all add: InvestmentAccount_init_def)

lemma fresh_ledger_length:
  assumes "0 \<le> 1 + mg"
  shows "length (get_data (account_after (simulate (InvestmentAccount_init nm sa mf mg dy mc) years)))
           = 12 * nat years"
  using assms by (simp add: fresh_ledger)

lemma py_round_zero: "py_round 0 n = 0"
  by (simp add: py_round_def round_half_even_def)


lemma simulate_frame:
  "\<exists>d. account_after (simulate self years) = self\<lparr>data := d\<rparr>"
proof (cases "0 \<le> 1 + market_growth self")
  case True
  then have "account_after (simulate self years) =
      self\<lparr>data := foldl (store_entry self) (data self) [0..<12 * nat years]\<rparr>"
    by (simp add: simulate_returns)
  then show ?thesis by blast
next
  case g: False
  show ?thesis
  proof (cases "1 \<le> years")
    case True
    then have "simulate self years = Inl (TypeError, self)"
      using g by (simp add: simulate_raises)
    then have "account_after (simulate self years) = self\<lparr>data := data self\<rparr>" by simp
    then show ?thesis by blast
  next
    case False
    then have "simulate self years = Inr self" by (simp add: simulate_no_iteration)
    then have "account_after (simulate self years) = self\<lparr>data := data self\<rparr>" by simp
    then show ?thesis by blast
  qed
qed

lemma exact_totals_numeral:
  "exact_totals cfg (numeral n) =
     exact_step cfg (pred_numeral n mod 12 + 1) (exact_totals cfg (pred_numeral n))"
  by (simp only: numeral_eq_Suc [of n] exact_totals.simps)

lemma not_3_dvd_2: "\<not> 3 dvd Suc (Suc 0)"
  by (simp add: dvd_eq_mod_eq_0 flip: numeral_2_eq_2)

section \<open>Rounding, exact totals and repeated calls\<close>

lemma round_half_even_bounds: "\<lfloor>x\<rfloor> \<le> round_half_even x \<and> round_half_even x \<le> \<lfloor>x\<rfloor> + 1"
  by (simp add: round_half_even_def Let_def)

lemma round_half_even_mono:
  assumes "x \<le> y"
  shows "round_half_even x \<le> round_half_even y"
proof (cases "\<lfloor>x\<rfloor> = \<lfloor>y\<rfloor>")
  case True
  have "x - of_int \<lfloor>y\<rfloor> \<le> y - of_int \<lfloor>y\<rfloor>" using assms by simp
  then show ?thesis unfolding round_half_even_def Let_def True by auto
next
  case False
  then have "\<lfloor>x\<rfloor> < \<lfloor>y\<rfloor>" using floor_mono [OF assms] by simp
  then show ?thesis
    using round_half_even_bounds [of x] round_half_even_bounds [of y] by linarith
qed

lemma py_round_mono:
  assumes "x \<le> y"
  shows "py_round x n \<le> py_round y n"
proof -
  have "x * 10 ^ n \<le> y * 10 ^ n" using assms by simp
  then have "round_half_even (x * 10 ^ n) \<le> round_half_even (y * 10 ^ n)"
    by (rule round_half_even_mono)
  then have "(of_int (round_half_even (x * 10 ^ n)) :: real) \<le>
             of_int (round_half_even (y * 10 ^ n))" by simp
  then show ?thesis unfolding py_round_def by (rule divide_right_mono) simp
qed


lemma growth_factor_ge_one: "0 \<le> market_growth cfg \<Longrightarrow> 1 \<le> growth_factor_of cfg"
  by (simp add: growth_factor_of_def ge_one_powr_ge_zero)

lemma exact_step_amount:
  assumes "management_fee cfg = 0" and "0 \<le> market_growth cfg"
    and "0 \<le> monthly_contribution cfg" and "0 \<le> dividend_yield cfg"
    and b: "0 \<le> total_amount t"
  shows "total_amount t \<le> total_amount (exact_step cfg m t)"
proof -
  let ?b = "total_amount t"
  have pc: "?b \<le> post_contribution cfg ?b" "0 \<le> post_contribution cfg ?b"
    using assms by (simp_all add: post_contribution_def)
  have "post_contribution cfg ?b * 1 \<le> post_contribution cfg ?b * growth_factor_of cfg"
    using pc(2) growth_factor_ge_one [OF assms(2)] by (rule mult_left_mono [rotated])
  then have pg: "post_contribution cfg ?b \<le> post_growth cfg ?b"
    by (simp add: post_growth_def)
  have pf: "post_fee cfg m ?b = post_growth cfg ?b"
    using assms(1) by (simp add: post_fee_def fee_charged_def)
  have "0 \<le> post_fee cfg m ?b" using pf pg pc by simp
  then have "0 \<le> post_fee cfg m ?b * dividend_yield cfg"
    using assms(4) by (rule mult_nonneg_nonneg)
  then have "0 \<le> dividend_paid cfg m ?b"
    by (auto simp: dividend_paid_def)
  then have "post_fee cfg m ?b \<le> post_dividend cfg m ?b"
    by (simp add: post_dividend_def)
  then show ?thesis
    using pf pg pc by (simp add: exact_step_def)
qed

lemma exact_amount_nonneg:
  assumes "management_fee cfg = 0" and "0 \<le> market_growth cfg"
    and "0 \<le> monthly_contribution cfg" and "0 \<le> dividend_yield cfg"
    and "0 \<le> start_amount cfg"
  shows "0 \<le> total_amount (exact_totals cfg k)"
proof (induction k)
  case 0
  show ?case using assms(5) by (simp add: initial_totals_def)
next
  case (Suc k)
  have "total_amount (exact_totals cfg k) \<le> total_amount (exact_totals cfg (Suc k))"
    using exact_step_amount [OF assms(1-4) Suc] by simp
  then show ?case using Suc by linarith
qed

lemma exact_amount_mono:
  assumes "management_fee cfg = 0" and "0 \<le> market_growth cfg"
    and "0 \<le> monthly_contribution cfg" and "0 \<le> dividend_yield cfg"
    and "0 \<le> start_amount cfg"
  shows "total_amount (exact_totals cfg k) \<le> total_amount (exact_totals cfg (Suc k))"
  using exact_step_amount [OF assms(1-4) exact_amount_nonneg [OF assms]] by simp

lemma record_balance:
  "Somme_totale (snd (ledger_entry cfg k)) = py_round (total_amount (exact_totals cfg (Suc k))) 2"
  by (simp add: ledger_entry_def emitted_record_def)


lemma resimulate:
  assumes c: "constructed self" and e: "data self = []" and g: "0 \<le> 1 + market_growth self"
  shows "simulate self y1 = Inr (self\<lparr>data := map (ledger_entry self) [0..<12 * nat y1]\<rparr>)"
    and "simulate (account_after (simulate self y1)) y2 =
           Inr (self\<lparr>data := map (ledger_entry self) [0..<max (12 * nat y1) (12 * nat y2)]\<rparr>)"
proof -
  have s: "foldl (store_entry self) (map (ledger_entry self) [0..<m]) [0..<n] =
           map (ledger_entry self) [0..<max m n]" for m n
    by (rule store_entries [OF ledger_label_inj [OF c]])
  show 1: "simulate self y1 = Inr (self\<lparr>data := map (ledger_entry self) [0..<12 * nat y1]\<rparr>)"
    using s [of 0 "12 * nat y1"] by (simp add: simulate_returns [OF g] e)
  let ?self1 = "self\<lparr>data := map (ledger_entry self) [0..<12 * nat y1]\<rparr>"
  have g1: "0 \<le> 1 + market_growth ?self1" using g by simp
  show "simulate (account_after (simulate self y1)) y2 =
           Inr (self\<lparr>data := map (ledger_entry self) [0..<max (12 * nat y1) (12 * nat y2)]\<rparr>)"
    unfolding 1 account_after.simps simulate_returns [OF g1]
    by (simp add: s)
qed


section \<open>The loops over any arithmetic\<close>

lemmas running_defs = after_contribution_def growth_factor_in_def market_change_in_def
  after_growth_def fee_in_def after_fee_def dividend_in_def after_dividend_def

lemma simulate_month_in_raises:
  "num_negative ar (num_add ar (num_int ar 1) (market_growth self)) \<Longrightarrow>
   simulate_month_in ar self year month t = Inl (TypeError, self)"
  by (simp add: simulate_month_in_def Let_def)

lemma simulate_month_in_returns:
  assumes "\<not> num_negative ar (num_add ar (num_int ar 1) (market_growth self))"
  shows "simulate_month_in ar self year month t =
           Inr (running_step ar self month t,
                self\<lparr>data := df_loc_set (data self) (row_label self year month)
                                 (rounded_record ar self month t)\<rparr>)"
proof -
  have m3: "(month mod 3 = 0) = (3 dvd month)" by (simp add: dvd_eq_mod_eq_0)
  show ?thesis
    unfolding simulate_month_in_def Let_def rounded_record_def running_step_def running_defs m3
    using assms by simp
qed

lemma running_step_data [simp]: "running_step ar (self\<lparr>data := d\<rparr>) = running_step ar self"
  by (rule ext)+ (simp add: running_step_def running_defs)

lemma running_totals_data [simp]:
  "running_totals ar (self\<lparr>data := d\<rparr>) k = running_totals ar self k"
  by (induction k) (simp_all add: initial_totals_in_def)

lemma rounded_record_data [simp]:
  "rounded_record ar (self\<lparr>data := d\<rparr>) = rounded_record ar self"
  by (rule ext)+ (simp add: rounded_record_def running_defs)

lemma ledger_entry_in_data [simp]:
  "ledger_entry_in ar (self\<lparr>data := d\<rparr>) = ledger_entry_in ar self"
  by (rule ext) (simp add: ledger_entry_in_def)

lemma store_entry_in_data [simp]:
  "store_entry_in ar (self\<lparr>data := d\<rparr>) = store_entry_in ar self"
  by (rule ext)+ (simp add: store_entry_in_def)

lemma month_loop_in_returns:
  assumes g: "\<not> num_negative ar (num_add ar (num_int ar 1) (market_growth self))"
    and i: "i \<le> 12"
  shows "month_loop_in ar (self\<lparr>data := d\<rparr>) (Suc y) (running_totals ar self (12 * y + i))
           [Suc i..<13] =
         Inr (running_totals ar self (12 * y + 12),
              self\<lparr>data := foldl (store_entry_in ar self) d [12 * y + i..<12 * y + 12]\<rparr>)"
  using i
proof (induction i arbitrary: d rule: inc_induct)
  case base
  show ?case by simp
next
  case (step n)
  let ?k = "12 * y + n"
  have g': "\<not> num_negative ar (num_add ar (num_int ar 1) (market_growth (self\<lparr>data := d\<rparr>)))"
    using g by simp
  have l: "[Suc n..<13] = Suc n # [Suc (Suc n)..<13]"
    using step.hyps by (simp add: upt_conv_Cons)
  have u: "[?k..<12 * y + 12] = ?k # [12 * y + Suc n..<12 * y + 12]"
    using step.hyps by (simp add: upt_conv_Cons)
  have md: "?k mod 12 = n" "?k div 12 = y"
    using step.hyps by simp_all
  have t: "running_step ar self (Suc n) (running_totals ar self ?k) =
           running_totals ar self (12 * y + Suc n)"
    using md by simp
  have s: "df_loc_set d (row_label self (Suc y) (Suc n))
             (rounded_record ar self (Suc n) (running_totals ar self ?k)) =
           store_entry_in ar self d ?k"
    unfolding store_entry_in_def ledger_entry_in_def md by simp
  have "month_loop_in ar (self\<lparr>data := d\<rparr>) (Suc y) (running_totals ar self ?k) [Suc n..<13] =
        month_loop_in ar (self\<lparr>data := store_entry_in ar self d ?k\<rparr>) (Suc y)
          (running_totals ar self (12 * y + Suc n)) [Suc (Suc n)..<13]"
    unfolding l by (simp add: simulate_month_in_returns [OF g'] t s)
  also have "\<dots> = Inr (running_totals ar self (12 * y + 12),
       self\<lparr>data := foldl (store_entry_in ar self) (store_entry_in ar self d ?k)
                       [12 * y + Suc n..<12 * y + 12]\<rparr>)"
    by (rule step.IH)
  finally show ?case unfolding u by simp
qed

lemma year_loop_in_returns:
  assumes g: "\<not> num_negative ar (num_add ar (num_int ar 1) (market_growth self))"
    and a: "a \<le> n"
  shows "year_loop_in ar (self\<lparr>data := d\<rparr>) (running_totals ar self (12 * a)) [Suc a..<Suc n] =
         Inr (running_totals ar self (12 * n),
              self\<lparr>data := foldl (store_entry_in ar self) d [12 * a..<12 * n]\<rparr>)"
  using a
proof (induction a arbitrary: d rule: inc_induct)
  case base
  show ?case by simp
next
  case (step k)
  let ?d = "foldl (store_entry_in ar self) d [12 * k..<12 * k + 12]"
  have l: "[Suc k..<Suc n] = Suc k # [Suc (Suc k)..<Suc n]"
    using step.hyps by (simp add: upt_conv_Cons)
  have e: "12 * k + 12 = 12 * Suc k" by simp
  have "12 * k + 12 \<le> 12 * n" using step.hyps by simp
  then have u: "[12 * k..<12 * n] = [12 * k..<12 * k + 12] @ [12 * Suc k..<12 * n]"
    unfolding e [symmetric]
    by (metis le_add1 le_Suc_ex upt_add_eq_append)
  have m: "month_loop_in ar (self\<lparr>data := d\<rparr>) (Suc k) (running_totals ar self (12 * k)) [1..<13] =
           Inr (running_totals ar self (12 * Suc k), self\<lparr>data := ?d\<rparr>)"
    using month_loop_in_returns [OF g, of 0 d k] unfolding e by (simp del: mult_Suc_right)
  have "year_loop_in ar (self\<lparr>data := d\<rparr>) (running_totals ar self (12 * k)) [Suc k..<Suc n] =
        year_loop_in ar (self\<lparr>data := ?d\<rparr>) (running_totals ar self (12 * Suc k))
          [Suc (Suc k)..<Suc n]"
    unfolding l by (simp only: year_loop_in.simps m sum.case prod.case)
  also have "\<dots> = Inr (running_totals ar self (12 * n),
       self\<lparr>data := foldl (store_entry_in ar self) ?d [12 * Suc k..<12 * n]\<rparr>)"
    by (rule step.IH)
  finally show ?case unfolding u by simp
qed

lemma simulate_in_returns:
  assumes "\<not> num_negative ar (num_add ar (num_int ar 1) (market_growth self))"
  shows "simulate_in ar self years =
           Inr (self\<lparr>data := foldl (store_entry_in ar self) (data self) [0..<12 * nat years]\<rparr>)"
proof -
  have "year_loop_in ar (self\<lparr>data := data self\<rparr>) (running_totals ar self (12 * 0))
          [Suc 0..<Suc (nat years)] =
        Inr (running_totals ar self (12 * nat years),
             self\<lparr>data := foldl (store_entry_in ar self) (data self) [12 * 0..<12 * nat years]\<rparr>)"
    by (rule year_loop_in_returns [OF assms]) simp
  then show ?thesis
    unfolding simulate_in_def year_range by simp
qed

lemma simulate_in_raises:
  assumes "num_negative ar (num_add ar (num_int ar 1) (market_growth self))" and "1 \<le> years"
  shows "simulate_in ar self years = Inl (TypeError, self)"
proof -
  have "Suc 0 < Suc (nat years)" using assms(2) by simp
  then have "[Suc 0..<Suc (nat years)] = Suc 0 # [Suc (Suc 0)..<Suc (nat years)]"
    by (rule upt_conv_Cons)
  moreover have "[1..<13] = Suc 0 # [Suc (Suc 0)..<13]"
    by (simp add: upt_conv_Cons)
  ultimately show ?thesis
    unfolding simulate_in_def year_range
    by (simp add: simulate_month_in_raises [OF assms(1)])
qed

lemma simulate_in_no_iteration: "years < 1 \<Longrightarrow> simulate_in ar self years = Inr self"
  by (simp add: simulate_in_def)

lemma store_entries_in:
  assumes inj: "inj (\<lambda>k. fst (ledger_entry_in ar cfg k))"
  shows "foldl (store_entry_in ar cfg) (map (ledger_entry_in ar cfg) [0..<m]) [0..<n] =
           map (ledger_entry_in ar cfg) [0..<max m n]"
proof (induction n)
  case 0
  show ?case by simp
next
  case (Suc n)
  let ?d = "map (ledger_entry_in ar cfg) [0..<max m n]"
  have dist: "distinct (map fst ?d)"
    using inj by (simp add: distinct_map comp_def inj_on_def inj_def)
  show ?case
  proof (cases "n < m")
    case True
    then have "ledger_entry_in ar cfg n \<in> set ?d" by simp
    then have "store_entry_in ar cfg ?d n = ?d"
      unfolding store_entry_in_def using dist by (simp add: df_loc_set_same)
    moreover have "max m (Suc n) = max m n" using True by simp
    ultimately show ?thesis using Suc.IH by simp
  next
    case False
    then have mx: "max m n = n" "max m (Suc n) = Suc n" by simp_all
    have "fst (ledger_entry_in ar cfg n) \<notin> fst ` set ?d"
    proof
      assume "fst (ledger_entry_in ar cfg n) \<in> fst ` set ?d"
      then obtain k where "k < n" "fst (ledger_entry_in ar cfg n) = fst (ledger_entry_in ar cfg k)"
        unfolding mx by auto
      then show False using inj by (auto simp: inj_def)
    qed
    then have "store_entry_in ar cfg ?d n = ?d @ [ledger_entry_in ar cfg n]"
      unfolding store_entry_in_def by (simp add: df_loc_set_new)
    then show ?thesis using Suc.IH mx by simp
  qed
qed

lemma ledger_label_in_inj:
  assumes "constructed self"
  shows "inj (\<lambda>k. fst (ledger_entry_in ar self k))"
proof (rule injI)
  fix k k' assume "fst (ledger_entry_in ar self k) = fst (ledger_entry_in ar self k')"
  then have "row_label self (Suc (k div 12)) (Suc (k mod 12)) =
             row_label self (Suc (k' div 12)) (Suc (k' mod 12))"
    by (simp add: ledger_entry_in_def)
  then have "k div 12 = k' div 12 \<and> k mod 12 = k' mod 12"
    by (rule row_label_inj [OF assms, rotated 2]) simp_all
  then show "k = k'" by (metis div_mult_mod_eq)
qed

lemma fresh_ledger_in:
  assumes "constructed self" and "data self = []"
  shows "get_data (account_after (simulate_in ar self years)) =
           (if num_negative ar (num_add ar (num_int ar 1) (market_growth self)) then []
            else map (ledger_entry_in ar self) [0..<12 * nat years])"
proof (cases "num_negative ar (num_add ar (num_int ar 1) (market_growth self))")
  case True
  show ?thesis
  proof (cases "1 \<le> years")
    case y: True
    show ?thesis
      using True assms(2) by (simp add: simulate_in_raises [OF True y] get_data_def)
  next
    case False
    then show ?thesis
      using True assms(2) by (simp add: simulate_in_no_iteration get_data_def)
  qed
next
  case False
  have "foldl (store_entry_in ar self) (map (ledger_entry_in ar self) [0..<0]) [0..<12 * nat years] =
        map (ledger_entry_in ar self) [0..<max 0 (12 * nat years)]"
    by (rule store_entries_in [OF ledger_label_in_inj [OF assms(1)]])
  then show ?thesis
    using False assms(2) by (simp add: simulate_in_returns [OF False] get_data_def)
qed

lemma nth_fresh_ledger_in:
  assumes "constructed self" and "data self = []"
    and "k < length (get_data (account_after (simulate_in ar self years)))"
  shows "get_data (account_after (simulate_in ar self years)) ! k = ledger_entry_in ar self k"
proof -
  have f: "get_data (account_after (simulate_in ar self years)) =
           (if num_negative ar (num_add ar (num_int ar 1) (market_growth self)) then []
            else map (ledger_entry_in ar self) [0..<12 * nat years])"
    by (rule fresh_ledger_in [OF assms(1,2)])
  have g: "\<not> num_negative ar (num_add ar (num_int ar 1) (market_growth self))"
    using assms(3) unfolding f by (simp split: if_splits)
  have k: "k < 12 * nat years"
    using assms(3) unfolding f by (simp split: if_splits)
  show ?thesis unfolding f using g k by simp
qed


lemma simulate_month_in_reals: "simulate_month_in python_reals = simulate_month"
  by (rule ext)+ (simp add: simulate_month_in_def simulate_month_def python_reals_def Let_def)

lemma month_loop_in_reals: "month_loop_in python_reals self year t ms = month_loop self year t ms"
  by (induction ms arbitrary: self t) (simp_all add: simulate_month_in_reals split: sum.splits)

lemma year_loop_in_reals: "year_loop_in python_reals self t ys = year_loop self t ys"
  by (induction ys arbitrary: self t) (simp_all add: month_loop_in_reals split: sum.splits)

lemma initial_totals_in_reals: "initial_totals_in python_reals = initial_totals"
  by (rule ext) (simp add: initial_totals_in_def initial_totals_def python_reals_def)

lemma simulate_in_reals: "simulate_in python_reals self years = simulate self years"
  by (simp add: simulate_in_def simulate_def year_loop_in_reals initial_totals_in_reals)

lemma running_totals_numeral:
  "running_totals ar cfg (numeral n) =
     running_step ar cfg (pred_numeral n mod 12 + 1) (running_totals ar cfg (pred_numeral n))"
  by (simp only: numeral_eq_Suc [of n] running_totals.simps)

lemma running_step_round [simp]:
  "running_step (ar\<lparr>num_round := rnd\<rparr>) = running_step ar"
  by (rule ext)+ (simp add: running_step_def running_defs)

lemma running_totals_round [simp]:
  "running_totals (ar\<lparr>num_round := rnd\<rparr>) cfg k = running_totals ar cfg k"
  by (induction k) (simp_all add: initial_totals_in_def)

lemma python_reals_simps [simp]:
  "num_add python_reals = (+)" "num_sub python_reals = (-)" "num_mul python_reals = (*)"
  "num_div python_reals = (/)" "num_pow python_reals = (powr)"
  "num_round python_reals = py_round" "num_int python_reals = of_int"
  "num_negative python_reals = (\<lambda>x. x < 0)"
  by (simp_all add: python_reals_def)

lemma fresh_ledger_in_length:
  assumes "\<not> num_negative ar (num_add ar (num_int ar 1) mg)"
  shows "length (get_data (account_after
           (simulate_in ar (InvestmentAccount_init nm sa mf mg dy mc) years))) = 12 * nat years"
  using assms by (simp add: fresh_ledger_in)



section \<open>The claims\<close>

text \<open>
  Claim C1. In every month that is simulated, the running balance goes through the four
  steps in this order: the contribution is added to \<open>total_amount\<close> and
  \<open>total_invested\<close>; the balance is multiplied by the twelfth root of
  \<open>1 + market_growth\<close>, which is the same as adding
  \<open>market_change = total_amount * (growth_factor - 1)\<close>; when 3 divides the month
  the fee, a quarter of \<open>management_fee\<close> percent of the balance after growth, is
  subtracted; in month 12 the dividend, \<open>dividend_yield\<close> times the balance after the
  fee, is added. A month is simulated when \<open>market_growth\<close> is at least \<open>-1\<close>;
  below that the call raises before it stores a record.
\<close>

theorem monthly_step_sequence:
  assumes "- 1 \<le> market_growth self"
  shows "let b1 = total_amount t + monthly_contribution self;
             growth_factor = (1 + market_growth self) powr (1 / 12);
             market_change = b1 * (growth_factor - 1);
             b2 = b1 * growth_factor;
             fee = (if 3 dvd month then b2 * (management_fee self / 100) / 4 else 0);
             b3 = b2 - fee;
             dividend = (if month = 12 then b3 * dividend_yield self else 0)
         in b2 = b1 + market_change \<and>
            (\<exists>self'. simulate_month self year month t =
               Inr (\<lparr> total_amount = b3 + dividend,
                      total_invested = total_invested t + monthly_contribution self,
                      total_fees = total_fees t + fee,
                      total_fees_cumulative = total_fees_cumulative t + fee,
                      total_dividends = total_dividends t + dividend \<rparr>, self'))"
proof -
  have g: "0 \<le> 1 + market_growth self" using assms by simp
  show ?thesis
    unfolding Let_def simulate_month_returns [OF g] exact_step_def stage_defs
    by (simp add: algebra_simps)
qed

text \<open>
  Claim C1 at the third month of an account of 100 with a fee of 4 percent a year and no
  growth: the fee of that quarter is 1 and the balance goes to 99.
\<close>

theorem monthly_step_sequence_witness:
  "- 1 \<le> market_growth (InvestmentAccount_init ''A'' 100 4 0 0 (0 :: real)) \<and>
   (\<exists>self'. simulate_month (InvestmentAccount_init ''A'' 100 4 0 0 0) 1 3
       \<lparr> total_amount = 100, total_invested = 100, total_fees = 0,
         total_fees_cumulative = 0, total_dividends = 0 \<rparr> =
     Inr (\<lparr> total_amount = 99, total_invested = 100, total_fees = 1,
            total_fees_cumulative = 1, total_dividends = 0 \<rparr>, self'))"
proof -
  have h: "- 1 \<le> market_growth (InvestmentAccount_init ''A'' 100 4 0 0 (0 :: real))" by simp
  show ?thesis
    using h monthly_step_sequence [OF h, of "\<lparr> total_amount = 100, total_invested = 100,
      total_fees = 0, total_fees_cumulative = 0, total_dividends = 0 \<rparr>" 3 1]
    by (simp add: Let_def)
qed

text \<open>
  Claim C2 says that the column "Frais de gestion" is zero in every month that is not a
  multiple of 3. The code stores the rounding of \<open>total_fees\<close> there, which is never
  reset: in April (index 3) of an account of 100 with a fee of 4 percent a year and no
  growth the column holds 1, the fee charged in March.
\<close>

theorem fee_column_after_first_quarter:
  "Frais_de_gestion (snd (get_data (account_after
      (simulate (InvestmentAccount_init ''A'' 100 4 0 0 0) 1)) ! 3)) = 1"
proof -
  let ?cfg = "InvestmentAccount_init ''A'' 100 4 0 0 0"
  have "3 < length (get_data (account_after (simulate ?cfg 1)))"
    by (simp add: fresh_ledger_length)
  then have "get_data (account_after (simulate ?cfg 1)) ! 3 = ledger_entry ?cfg 3"
    by (rule nth_fresh_ledger(1) [rotated 2]) simp_all
  moreover have "Frais_de_gestion (snd (ledger_entry ?cfg 3)) = 1"
    by (simp add: ledger_entry_def emitted_record_def exact_totals_numeral exact_step_def
        stage_defs initial_totals_def py_round_def round_half_even_def not_3_dvd_2)
  ultimately show ?thesis by simp
qed

text \<open>
  Claim C3 says that \<open>simulate(years)\<close> raises for \<open>years < 1\<close>. It does not: the
  range of years is empty and the call returns, here for 0 and for -3.
\<close>

theorem simulate_zero_years_no_raise:
  "raised (simulate (InvestmentAccount_init ''A'' 100 4 0 0 0) 0) = None \<and>
   raised (simulate (InvestmentAccount_init ''A'' 100 4 0 0 0) (- 3)) = None"
  by (simp add: simulate_no_iteration)

text \<open>
  Claim C3, amended. For \<open>years < 1\<close> the call raises nothing and changes nothing:
  it returns with the account, and so the ledger, as they were.
\<close>

theorem simulate_below_one_year:
  assumes "years < 1"
  shows "raised (simulate self years) = None \<and> account_after (simulate self years) = self"
  using assms by (simp add: simulate_def)

text \<open>
  Claim C3, amended, at \<open>years = 0\<close>.
\<close>

theorem simulate_below_one_year_witness:
  "(0 :: int) < 1 \<and>
   raised (simulate (InvestmentAccount_init ''A'' 100 4 0 0 0) 0) = None \<and>
   account_after (simulate (InvestmentAccount_init ''A'' 100 4 0 0 0) 0) =
     InvestmentAccount_init ''A'' 100 4 0 0 0"
proof -
  have h: "(0 :: int) < 1" by simp
  show ?thesis
    using h simulate_below_one_year [OF h, of "InvestmentAccount_init ''A'' 100 4 0 0 0"]
    by simp
qed

text \<open>
  Claim C4 says that the ledger has \<open>years * 12\<close> records after any call, also a
  repeated one. A repeated call stores its rows under the labels of the first call and
  removes none: after \<open>simulate(2)\<close> and then \<open>simulate(1)\<close> the ledger has 24 records,
  not 12.
\<close>

theorem resimulate_shorter_horizon_keeps_rows:
  "length (get_data (account_after (simulate (account_after
      (simulate (InvestmentAccount_init ''A'' 100 4 0 0 0) 2)) 1))) = 24"
proof -
  let ?cfg = "InvestmentAccount_init ''A'' 100 4 0 0 0"
  have "simulate (account_after (simulate ?cfg 2)) 1 =
          Inr (?cfg\<lparr>data := map (ledger_entry ?cfg) [0..<max (12 * nat 2) (12 * nat 1)]\<rparr>)"
    by (rule resimulate(2)) simp_all
  then show ?thesis by (simp add: get_data_def)
qed

text \<open>
  Claim C4, amended. With \<open>market_growth\<close> at least \<open>-1\<close> and \<open>years\<close> at least 1,
  the call on a fresh account returns and leaves exactly \<open>years * 12\<close> records; a
  second call with \<open>years'\<close> at least 1 returns and leaves
  \<open>max years years' * 12\<close> records.
\<close>

theorem ledger_length:
  assumes "- 1 \<le> mg" and "1 \<le> years" and "1 \<le> years'"
  shows "let fresh = InvestmentAccount_init nm sa mf mg dy mc;
             once = account_after (simulate fresh years)
         in raised (simulate fresh years) = None \<and>
            int (length (get_data once)) = years * 12 \<and>
            raised (simulate once years') = None \<and>
            int (length (get_data (account_after (simulate once years')))) =
              max years years' * 12"
proof -
  let ?fresh = "InvestmentAccount_init nm sa mf mg dy mc"
  have g: "0 \<le> 1 + market_growth ?fresh" using assms(1) by simp
  have m: "int (max (12 * nat years) (12 * nat years')) = max years years' * 12"
    using assms(2,3) by (auto simp: max_def)
  have 1: "simulate ?fresh years =
      Inr (?fresh\<lparr>data := map (ledger_entry ?fresh) [0..<12 * nat years]\<rparr>)"
    by (rule resimulate(1) [OF constructed_init init_fields(7) g])
  have 2: "simulate (account_after (simulate ?fresh years)) years' =
      Inr (?fresh\<lparr>data := map (ledger_entry ?fresh)
             [0..<max (12 * nat years) (12 * nat years')]\<rparr>)"
    by (rule resimulate(2) [OF constructed_init init_fields(7) g])
  have a: "raised (simulate ?fresh years) = None"
    and b: "int (length (get_data (account_after (simulate ?fresh years)))) = years * 12"
    using assms(2) unfolding 1 by (simp_all add: get_data_def)
  have c: "raised (simulate (account_after (simulate ?fresh years)) years') = None"
    and d: "int (length (get_data (account_after
              (simulate (account_after (simulate ?fresh years)) years')))) =
            max years years' * 12"
    using m unfolding 2 by (simp_all add: get_data_def)
  show ?thesis unfolding Let_def using a b c d by blast
qed

text \<open>
  Claim C4, amended, at \<open>simulate(2)\<close> followed by \<open>simulate(1)\<close>.
\<close>

theorem ledger_length_witness:
  "- 1 \<le> (0 :: real) \<and> (1 :: int) \<le> 2 \<and> (1 :: int) \<le> 1 \<and>
   raised (simulate (InvestmentAccount_init ''A'' 100 4 0 0 0) 2) = None \<and>
   int (length (get_data (account_after
     (simulate (InvestmentAccount_init ''A'' 100 4 0 0 0) 2)))) = 24 \<and>
   raised (simulate (account_after
     (simulate (InvestmentAccount_init ''A'' 100 4 0 0 0) 2)) 1) = None \<and>
   int (length (get_data (account_after (simulate (account_after
     (simulate (InvestmentAccount_init ''A'' 100 4 0 0 0) 2)) 1)))) = 24"
proof -
  have h: "- 1 \<le> (0 :: real)" "(1 :: int) \<le> 2" "(1 :: int) \<le> 1" by simp_all
  show ?thesis
    using h ledger_length [OF h, of "''A''" 100 4 0 0]
    by (simp add: Let_def)
qed

text \<open>
  Claim C5. Whatever the arithmetic, every record in the ledger of a fresh account holds
  the two-decimal rounding of the running values: record \<open>k\<close> rounds the totals that
  \<open>running_totals\<close> gives after \<open>k + 1\<close> months, and the market change and dividend
  computed from the totals after \<open>k\<close> months. \<open>running_totals\<close> never rounds, and
  putting any other rounding in place of \<^verbatim>\<open>round\<close> leaves the totals as they are: no
  rounded value is carried into a later month.
\<close>

theorem records_round_running_totals:
  assumes "k < length (get_data (account_after
             (simulate_in ar (InvestmentAccount_init nm sa mf mg dy mc) years)))"
  shows "let cfg = InvestmentAccount_init nm sa mf mg dy mc;
             r = snd (get_data (account_after (simulate_in ar cfg years)) ! k);
             before = running_totals ar cfg k;
             after = running_totals ar cfg (Suc k)
         in Somme_totale r = num_round ar (total_amount after) 2 \<and>
            Somme_totale_investie r = num_round ar (total_invested after) 2 \<and>
            Benefices r = num_round ar (num_sub ar (total_amount after) (total_invested after)) 2 \<and>
            Frais_de_gestion r = num_round ar (total_fees after) 2 \<and>
            Montants_totaux_de_frais_de_gestion r = num_round ar (total_fees_cumulative after) 2 \<and>
            Evolution_du_marche r = num_round ar (market_change_in ar cfg (total_amount before)) 2 \<and>
            Dividendes_verses r =
              num_round ar (dividend_in ar cfg (k mod 12 + 1) (total_amount before)) 2 \<and>
            Contribution_ajoutee r = num_round ar mc 2 \<and>
            after = running_totals (ar\<lparr>num_round := other_round\<rparr>) cfg (Suc k)"
proof -
  let ?cfg = "InvestmentAccount_init nm sa mf mg dy mc"
  have "get_data (account_after (simulate_in ar ?cfg years)) ! k = ledger_entry_in ar ?cfg k"
    by (rule nth_fresh_ledger_in [OF _ _ assms]) simp_all
  then show ?thesis
    by (simp add: Let_def ledger_entry_in_def rounded_record_def)
qed

text \<open>
  Claim C5 at the first record of an account that starts at 0 and receives 1/64 a month,
  in the arithmetic of the reals: the running balance 0.015625 is stored as 0.02.
\<close>

theorem records_round_running_totals_witness:
  "0 < length (get_data (account_after
      (simulate_in python_reals (InvestmentAccount_init ''A'' 0 0 0 0 (1 / 64)) 1))) \<and>
   Somme_totale (snd (get_data (account_after
      (simulate_in python_reals (InvestmentAccount_init ''A'' 0 0 0 0 (1 / 64)) 1)) ! 0)) = 2 / 100 \<and>
   Contribution_ajoutee (snd (get_data (account_after
      (simulate_in python_reals (InvestmentAccount_init ''A'' 0 0 0 0 (1 / 64)) 1)) ! 0)) = 2 / 100"
proof -
  let ?cfg = "InvestmentAccount_init ''A'' 0 0 0 0 (1 / 64 :: real)"
  have n: "0 < length (get_data (account_after (simulate_in python_reals ?cfg 1)))"
    by (simp add: fresh_ledger_in_length)
  have r: "py_round (1 / 64) 2 = 2 / 100"
    by (simp add: py_round_def round_half_even_def)
  have t: "total_amount (running_totals python_reals ?cfg (Suc 0)) = 1 / 64"
    by (simp add: running_step_def running_defs initial_totals_in_def)
  note w = records_round_running_totals [OF n, unfolded Let_def]
  have "Somme_totale (snd (get_data (account_after (simulate_in python_reals ?cfg 1)) ! 0)) =
      num_round python_reals (total_amount (running_totals python_reals ?cfg (Suc 0))) 2"
    and "Contribution_ajoutee (snd (get_data (account_after
      (simulate_in python_reals ?cfg 1)) ! 0)) = num_round python_reals (1 / 64) 2"
    using w by blast+
  then show ?thesis
    unfolding t python_reals_simps r using n by blast
qed

text \<open>
  Claim C6. Whatever the arithmetic in which \<^verbatim>\<open>round(0, 2)\<close> is 0, the dividend field
  of record \<open>k\<close> in the ledger of a fresh account is 0 unless \<open>k\<close> is the last index,
  11, of its block of twelve; there it is the rounding of the December balance after
  the fee times \<open>dividend_yield\<close>.
\<close>

theorem dividend_column_december_only:
  assumes "k < length (get_data (account_after
             (simulate_in ar (InvestmentAccount_init nm sa mf mg dy mc) years)))"
    and "num_round ar (num_int ar 0) 2 = num_int ar 0"
  shows "let cfg = InvestmentAccount_init nm sa mf mg dy mc;
             r = snd (get_data (account_after (simulate_in ar cfg years)) ! k)
         in (k mod 12 \<noteq> 11 \<longrightarrow> Dividendes_verses r = num_int ar 0) \<and>
            (k mod 12 = 11 \<longrightarrow>
               Dividendes_verses r =
                 num_round ar
                   (num_mul ar (after_fee ar cfg 12 (total_amount (running_totals ar cfg k))) dy) 2)"
proof -
  let ?cfg = "InvestmentAccount_init nm sa mf mg dy mc"
  have "get_data (account_after (simulate_in ar ?cfg years)) ! k = ledger_entry_in ar ?cfg k"
    by (rule nth_fresh_ledger_in [OF _ _ assms(1)]) simp_all
  then show ?thesis
    by (simp add: Let_def ledger_entry_in_def rounded_record_def dividend_in_def assms(2))
qed

text \<open>
  Claim C6 at the December record of an account of 100 with a dividend yield of one
  half, in the arithmetic of the reals: the dividend field holds 50.
\<close>

theorem dividend_column_december_only_witness:
  "11 < length (get_data (account_after
      (simulate_in python_reals (InvestmentAccount_init ''A'' 100 0 0 (1 / 2) 0) 1))) \<and>
   num_round python_reals (num_int python_reals 0) 2 = num_int python_reals 0 \<and>
   Dividendes_verses (snd (get_data (account_after
      (simulate_in python_reals (InvestmentAccount_init ''A'' 100 0 0 (1 / 2) 0) 1)) ! 11)) = 50"
proof -
  let ?cfg = "InvestmentAccount_init ''A'' 100 0 0 (1 / 2) (0 :: real)"
  have n: "11 < length (get_data (account_after (simulate_in python_reals ?cfg 1)))"
    by (simp add: fresh_ledger_in_length)
  have z: "num_round python_reals (num_int python_reals 0) 2 = num_int python_reals 0"
    by (simp add: py_round_zero)
  have s: "total_amount (running_step python_reals ?cfg m t) = total_amount t" if "m \<noteq> 12" for m t
    using that by (simp add: running_step_def running_defs)
  have t: "total_amount (running_totals python_reals ?cfg 11) = 100"
    by (simp add: running_totals_numeral s initial_totals_in_def)
  have f: "after_fee python_reals ?cfg 12 100 = 100"
    by (simp add: running_defs)
  have r: "py_round 50 2 = 50"
    by (simp add: py_round_def round_half_even_def)
  have "Dividendes_verses (snd (get_data (account_after (simulate_in python_reals ?cfg 1)) ! 11)) =
        num_round python_reals (num_mul python_reals
          (after_fee python_reals ?cfg 12 (total_amount (running_totals python_reals ?cfg 11)))
          (1 / 2)) 2"
    using dividend_column_december_only [OF n z, unfolded Let_def] by simp
  then show ?thesis
    unfolding t f using n z r by simp
qed




text \<open>
  Claim C8 says that with no fee and no negative growth the balance column never
  decreases. A negative monthly contribution makes it decrease: from 1000 with -100 a
  month, the first record holds 900 and the second 800.
\<close>

theorem balance_falls_with_negative_contribution:
  "Somme_totale (snd (get_data (account_after
      (simulate (InvestmentAccount_init ''A'' 1000 0 0 0 (- 100)) 1)) ! 1)) <
   Somme_totale (snd (get_data (account_after
      (simulate (InvestmentAccount_init ''A'' 1000 0 0 0 (- 100)) 1)) ! 0))"
proof -
  let ?cfg = "InvestmentAccount_init ''A'' 1000 0 0 0 (- 100)"
  let ?ledger = "get_data (account_after (simulate ?cfg 1))"
  have n: "0 < length ?ledger" "1 < length ?ledger"
    by (simp_all add: fresh_ledger_length)
  have "?ledger ! 0 = ledger_entry ?cfg 0"
    by (rule nth_fresh_ledger(1) [OF _ _ n(1)]) simp_all
  moreover have "?ledger ! 1 = ledger_entry ?cfg 1"
    by (rule nth_fresh_ledger(1) [OF _ _ n(2)]) simp_all
  moreover have "Somme_totale (snd (ledger_entry ?cfg 0)) = 900"
    by (simp add: ledger_entry_def emitted_record_def exact_step_def
        stage_defs initial_totals_def py_round_def round_half_even_def)
  moreover have "Somme_totale (snd (ledger_entry ?cfg 1)) = 800"
    by (simp add: ledger_entry_def emitted_record_def exact_step_def
        stage_defs initial_totals_def py_round_def round_half_even_def not_3_dvd_2)
  ultimately show ?thesis by simp
qed

text \<open>
  Claim C8, amended. With a management fee of 0 and with \<open>market_growth\<close>,
  \<open>start_amount\<close>, \<open>monthly_contribution\<close> and \<open>dividend_yield\<close> all at least 0,
  the balance column of the ledger of a fresh account does not decrease from a record
  to the next.
\<close>

theorem balance_non_decreasing:
  assumes "0 \<le> mg" and "0 \<le> sa" and "0 \<le> mc" and "0 \<le> dy"
    and "Suc k < length (get_data (account_after
           (simulate (InvestmentAccount_init nm sa 0 mg dy mc) years)))"
  shows "Somme_totale (snd (get_data (account_after
           (simulate (InvestmentAccount_init nm sa 0 mg dy mc) years)) ! k)) \<le>
         Somme_totale (snd (get_data (account_after
           (simulate (InvestmentAccount_init nm sa 0 mg dy mc) years)) ! Suc k))"
proof -
  let ?cfg = "InvestmentAccount_init nm sa 0 mg dy mc"
  let ?ledger = "get_data (account_after (simulate ?cfg years))"
  have k: "k < length ?ledger" using assms(5) by simp
  have a: "?ledger ! k = ledger_entry ?cfg k"
    by (rule nth_fresh_ledger(1) [OF _ _ k]) simp_all
  have b: "?ledger ! Suc k = ledger_entry ?cfg (Suc k)"
    by (rule nth_fresh_ledger(1) [OF _ _ assms(5)]) simp_all
  have "total_amount (exact_totals ?cfg (Suc k)) \<le> total_amount (exact_totals ?cfg (Suc (Suc k)))"
    by (rule exact_amount_mono) (simp_all add: assms)
  then have "py_round (total_amount (exact_totals ?cfg (Suc k))) 2 \<le>
             py_round (total_amount (exact_totals ?cfg (Suc (Suc k)))) 2"
    by (rule py_round_mono)
  then show ?thesis unfolding a b record_balance .
qed

text \<open>
  Claim C8, amended, at the first two records of an account of 1000 with 100 a month.
\<close>

theorem balance_non_decreasing_witness:
  "(0 :: real) \<le> 0 \<and> (0 :: real) \<le> 1000 \<and> (0 :: real) \<le> 100 \<and> (0 :: real) \<le> 0 \<and>
   Suc 0 < length (get_data (account_after
      (simulate (InvestmentAccount_init ''A'' 1000 0 0 0 100) 1))) \<and>
   Somme_totale (snd (get_data (account_after
      (simulate (InvestmentAccount_init ''A'' 1000 0 0 0 100) 1)) ! 0)) \<le>
   Somme_totale (snd (get_data (account_after
      (simulate (InvestmentAccount_init ''A'' 1000 0 0 0 100) 1)) ! Suc 0))"
proof -
  have h: "(0 :: real) \<le> 0" "(0 :: real) \<le> 1000" "(0 :: real) \<le> 100" "(0 :: real) \<le> 0"
    by simp_all
  have n: "Suc 0 < length (get_data (account_after
      (simulate (InvestmentAccount_init ''A'' 1000 0 0 0 100) 1)))"
    by (simp add: fresh_ledger_length)
  show ?thesis
    using h n balance_non_decreasing [OF h n] by blast
qed

text \<open>
  Claim C9. Whatever the account and the horizon, and whether the call returns or
  raises, \<open>simulate\<close> leaves the six configuration fields as they were: the object after
  the call is the object before it with another ledger.
\<close>

theorem simulate_keeps_configuration:
  "name (account_after (simulate self years)) = name self \<and>
   start_amount (account_after (simulate self years)) = start_amount self \<and>
   management_fee (account_after (simulate self years)) = management_fee self \<and>
   market_growth (account_after (simulate self years)) = market_growth self \<and>
   dividend_yield (account_after (simulate self years)) = dividend_yield self \<and>
   monthly_contribution (account_after (simulate self years)) = monthly_contribution self \<and>
   account_after (simulate self years) =
     self\<lparr>data := get_data (account_after (simulate self years))\<rparr>"
proof -
  obtain d where "account_after (simulate self years) = self\<lparr>data := d\<rparr>"
    using simulate_frame by blast
  then show ?thesis by (simp add: get_data_def)
qed



end
